theory Spec2Isabelle
  imports Complex_Main
begin

section \<open>Tensors\<close>

text \<open>
  The repository computes on torch tensors of floating-point numbers. The embedding
  reads every tensor entry as a real number: a one-dimensional tensor is a list of reals,
  a two-dimensional tensor is the list of its rows. Rounding, overflow, infinities and NaN
  are outside this model, and so is the precision of a tensor (float32 or float64);
  every statement below is about the exact arithmetic that the code writes down. Shapes are not part of the list type, so the theorems name the shapes
  they need (\<open>mat_shape\<close>); on other shapes torch raises or broadcasts.
  Indices are natural numbers: Python's negative indices are not modelled.
\<close>

type_synonym vec = "real list"
type_synonym mat = "real list list"

datatype error = ValueError | ShapeError | LinAlgError

datatype tensor = Tensor1 vec | Tensor2 mat

definition mat_shape :: "mat \<Rightarrow> nat \<Rightarrow> nat \<Rightarrow> bool" where
  "mat_shape M n m = (length M = n \<and> list_all (\<lambda>r. length r = m) M)"

definition ncols :: "mat \<Rightarrow> nat" where
  \<comment> \<open>\<open>M.shape[1]\<close>, \<open>M.size(-1)\<close>; a matrix without rows has lost its column count\<close>
  "ncols M = (case M of [] \<Rightarrow> 0 | r # _ \<Rightarrow> length r)"

definition col :: "mat \<Rightarrow> nat \<Rightarrow> vec" where
  \<comment> \<open>\<open>M[:, c]\<close>\<close>
  "col M c = map (\<lambda>r. r ! c) M"

definition vneg :: "vec \<Rightarrow> vec" where
  "vneg v = map uminus v"

definition vscale :: "real \<Rightarrow> vec \<Rightarrow> vec" where
  "vscale c v = map ((*) c) v"

definition vdiv :: "vec \<Rightarrow> real \<Rightarrow> vec" where
  "vdiv v c = map (\<lambda>a. a / c) v"

definition vmul :: "vec \<Rightarrow> vec \<Rightarrow> vec" where
  "vmul a b = map2 (*) a b"

definition vadd :: "vec \<Rightarrow> vec \<Rightarrow> vec" where
  "vadd a b = map2 (+) a b"

definition vsub :: "vec \<Rightarrow> vec \<Rightarrow> vec" where
  "vsub a b = map2 (-) a b"

definition dot :: "vec \<Rightarrow> vec \<Rightarrow> real" where
  \<comment> \<open>\<open>a @ b\<close> on two vectors\<close>
  "dot a b = sum_list (map (\<lambda>k. a ! k * b ! k) [0..<length a])"

definition vecmat :: "vec \<Rightarrow> mat \<Rightarrow> vec" where
  \<comment> \<open>\<open>torch.matmul(v, M)\<close>\<close>
  "vecmat v M = map (\<lambda>c. dot v (col M c)) [0..<ncols M]"

definition mtranspose :: "mat \<Rightarrow> mat" where
  \<comment> \<open>\<open>M.T\<close>\<close>
  "mtranspose M = map (col M) [0..<ncols M]"

definition matmul :: "mat \<Rightarrow> mat \<Rightarrow> mat" where
  \<comment> \<open>\<open>A @ B\<close>\<close>
  "matmul A B = map (\<lambda>r. vecmat r B) A"

definition mscale :: "real \<Rightarrow> mat \<Rightarrow> mat" where
  "mscale c M = map (vscale c) M"

definition mdiv :: "mat \<Rightarrow> real \<Rightarrow> mat" where
  "mdiv M c = map (\<lambda>r. vdiv r c) M"

definition madd :: "mat \<Rightarrow> mat \<Rightarrow> mat" where
  "madd A B = map2 vadd A B"

definition msub :: "mat \<Rightarrow> mat \<Rightarrow> mat" where
  "msub A B = map2 vsub A B"

definition mmul :: "mat \<Rightarrow> mat \<Rightarrow> mat" where
  \<comment> \<open>the elementwise product \<open>A * B\<close>\<close>
  "mmul A B = map2 vmul A B"

definition outer :: "vec \<Rightarrow> vec \<Rightarrow> mat" where
  \<comment> \<open>\<open>torch.einsum('j,k->jk', a, b)\<close>\<close>
  "outer a b = map (\<lambda>x. map (\<lambda>y. x * y) b) a"

definition einsum_r_jr :: "vec \<Rightarrow> mat \<Rightarrow> vec" where
  \<comment> \<open>\<open>torch.einsum('r,jr->j', v, M)\<close>\<close>
  "einsum_r_jr v M = map (\<lambda>row. sum_list (vmul v row)) M"

definition eye :: "nat \<Rightarrow> mat" where
  "eye n = map (\<lambda>j. map (\<lambda>k. if j = k then 1 else 0) [0..<n]) [0..<n]"

definition zeros :: "nat \<Rightarrow> nat \<Rightarrow> mat" where
  "zeros n m = replicate n (replicate m 0)"

definition trace :: "mat \<Rightarrow> real" where
  "trace M = sum_list (map (\<lambda>j. M ! j ! j) [0..<min (length M) (ncols M)])"

definition mean :: "vec \<Rightarrow> real" where
  "mean v = sum_list v / real (length v)"

definition logsumexp :: "vec \<Rightarrow> real" where
  \<comment> \<open>\<open>torch.logsumexp(v, dim=0)\<close>: the logarithm of the sum of the exponentials\<close>
  "logsumexp v = ln (sum_list (map exp v))"

definition colsums :: "mat \<Rightarrow> vec" where
  \<comment> \<open>\<open>torch.sum(M, axis=0)\<close>\<close>
  "colsums M = map (\<lambda>c. sum_list (col M c)) [0..<ncols M]"

definition index_put :: "mat \<Rightarrow> (nat \<times> nat) list \<Rightarrow> vec \<Rightarrow> mat" where
  \<comment> \<open>\<open>M[rows, cols] = vals\<close>, one assignment per index pair, in order\<close>
  "index_put M idx vals = fold (\<lambda>((r, c), v) A. A[r := (A ! r)[c := v]]) (zip idx vals) M"

section \<open>The per-spin estimator (revised module)\<close>

definition exp_EP_spin_model :: "vec \<Rightarrow> mat \<Rightarrow> nat \<Rightarrow> real" where
  "exp_EP_spin_model Da J i = dot (J ! i) Da"

definition correlations :: "mat \<Rightarrow> nat \<Rightarrow> vec" where
  "correlations S i = vdiv (einsum_r_jr (vscale (- 2) (S ! i)) S) (real (ncols S))"

definition correlations4 :: "mat \<Rightarrow> nat \<Rightarrow> mat" where
  "correlations4 S i = mdiv (matmul (mscale 4 S) (mtranspose S)) (real (ncols S))"

definition remove_i :: "'a list \<Rightarrow> nat \<Rightarrow> 'a list" where
  \<comment> \<open>\<open>torch.cat((A[:i], A[i+1:]))\<close>; a slice past the end is empty, as in Python\<close>
  "remove_i A i = take i A @ drop (Suc i) A"

definition K_nodiag :: "mat \<Rightarrow> nat \<Rightarrow> mat" where
  "K_nodiag Ks i = map (\<lambda>r. remove_i r i) (remove_i Ks i)"

definition tilt_field :: "mat \<Rightarrow> vec \<Rightarrow> nat \<Rightarrow> vec" where
  \<comment> \<open>the local \<open>thf\<close> of the three reweighting functions\<close>
  "tilt_field S theta i = vmul (vscale (- 2) (S ! i)) (vecmat theta (remove_i S i))"

definition correlations_theta :: "mat \<Rightarrow> vec \<Rightarrow> nat \<Rightarrow> vec" where
  "correlations_theta S theta i =
     (let thf = tilt_field S theta i;
          S1_S = vmul (vneg (vscale (- 2) (S ! i))) (map exp (vneg thf))
      in vdiv (einsum_r_jr S1_S S) (real (ncols S)))"

definition correlations4_theta :: "mat \<Rightarrow> vec \<Rightarrow> nat \<Rightarrow> mat" where
  "correlations4_theta S theta i =
     (let thf = tilt_field S theta i;
          w = vscale 4 (map exp (vneg thf))
      in mdiv (matmul (map (\<lambda>row. vmul w row) S) (mtranspose S)) (real (ncols S)))"

definition log_norm_theta :: "mat \<Rightarrow> vec \<Rightarrow> nat \<Rightarrow> real" where
  \<comment> \<open>the source takes \<open>torch.log(torch.tensor(thf.numel()))\<close> in float32 whatever the
      precision of \<open>S\<close>, while the log-sum-exp has the precision of \<open>S\<close>; over the
      reals both are exact and the difference of the two roundings is not seen\<close>
  "log_norm_theta S theta i =
     (let thf = tilt_field S theta i
      in logsumexp (vneg thf) - ln (real (length thf)))"

text \<open>
  \<open>torch.linalg.lstsq\<close> is a library routine. It is a parameter \<open>lstsq\<close> of the model,
  a function from the matrix and the right-hand side to either an error (the routine
  raises) or the field \<open>solution\<close> of its result.
\<close>

type_synonym solver = "mat \<Rightarrow> vec \<Rightarrow> error + vec"

definition solve_linear_theta :: "solver \<Rightarrow> vec \<Rightarrow> vec \<Rightarrow> mat \<Rightarrow> nat \<Rightarrow> error + vec" where
  "solve_linear_theta lstsq Da Da_th Ks_th i =
     (let Dai = remove_i Da i;
          Dai_th = remove_i Da_th i;
          Ks_no_diag_th = K_nodiag Ks_th i;
          rhs_th = vsub Dai Dai_th;
          I = eye (ncols Ks_no_diag_th);
          alpha = 1 / 10 ^ 4 * trace Ks_no_diag_th / real (length Ks_no_diag_th)
      in lstsq (madd Ks_no_diag_th (mscale alpha I)) rhs_th)"

definition get_EP_Newton :: "solver \<Rightarrow> mat \<Rightarrow> nat \<Rightarrow> error + (real \<times> real \<times> vec \<times> vec)" where
  "get_EP_Newton lstsq S i =
     (let Da = correlations S i;
          Ks = msub (correlations4 S i) (outer Da Da)
      in case solve_linear_theta lstsq Da (vneg Da) Ks i of
           Inl e \<Rightarrow> Inl e
         | Inr theta \<Rightarrow>
             (let Dai = remove_i Da i;
                  lnZ = log_norm_theta S theta i;
                  sig_MTUR = dot theta Dai;
                  sig_N1 = sum_list (vmul theta Dai) - lnZ
              in Inr (sig_N1, sig_MTUR, theta, Da)))"

definition get_EP_Newton2 :: "solver \<Rightarrow> mat \<Rightarrow> vec \<Rightarrow> vec \<Rightarrow> nat \<Rightarrow> error + (real \<times> vec)" where
  \<comment> \<open>the locals \<open>N\<close> and \<open>t_min\<close> are computed and never used\<close>
  "get_EP_Newton2 lstsq S theta_lin Da i =
     (let Z = exp (log_norm_theta S theta_lin i);
          Da_th = vdiv (correlations_theta S theta_lin i) Z;
          Ks_th = msub (mdiv (correlations4_theta S theta_lin i) Z) (outer Da_th Da_th)
      in case solve_linear_theta lstsq Da Da_th Ks_th i of
           Inl e \<Rightarrow> Inl e
         | Inr theta_lin2 \<Rightarrow>
             (let theta = vadd theta_lin theta_lin2;
                  Dai = remove_i Da i;
                  sig_N2 = sum_list (vmul theta Dai) - log_norm_theta S theta i
              in Inr (sig_N2, theta_lin2)))"

section \<open>The per-spin estimator (original module)\<close>

definition exp_EP_spin_model_v1 :: "vec \<Rightarrow> mat \<Rightarrow> nat \<Rightarrow> real" where
  "exp_EP_spin_model_v1 Da J i = sum_list (vmul (vsub (J ! i) (col J i)) Da) / 2"

definition correlations_v1 :: "mat \<Rightarrow> real \<Rightarrow> nat \<Rightarrow> vec" where
  "correlations_v1 S T i =
     (let Da = vdiv (einsum_r_jr (vscale (- 2) (S ! i)) S) T
      in Da[i := 0])"

definition correlations4_v1 :: "mat \<Rightarrow> real \<Rightarrow> nat \<Rightarrow> mat" where
  "correlations4_v1 S T i =
     (let K = mdiv (matmul (mscale 4 S) (mtranspose S)) T;
          K = K[i := replicate (ncols K) 0];
          K = map (\<lambda>r. r[i := 0]) K
      in K)"

text \<open>
  The original solver catches the singular-matrix error of \<open>torch.linalg.solve\<close>,
  multiplies \<open>epsilon\<close> by ten and tries again, without a bound. The loop is
  \<open>retry_solve\<close>; \<open>None\<close> is the value of a run that never leaves it.
  The progress line it prints is not modelled.
\<close>

partial_function (option) retry_solve ::
  "solver \<Rightarrow> mat \<Rightarrow> mat \<Rightarrow> vec \<Rightarrow> real \<Rightarrow> (error + vec) option" where
  "retry_solve solve K I rhs epsilon =
     (case solve (madd K (mscale epsilon I)) rhs of
        Inr dtheta \<Rightarrow> Some (Inr dtheta)
      | Inl e \<Rightarrow> (if e = LinAlgError then retry_solve solve K I rhs (epsilon * 10)
                  else Some (Inl e)))"

definition solve_linear_theta_v1 ::
  "solver \<Rightarrow> vec \<Rightarrow> vec \<Rightarrow> mat \<Rightarrow> nat \<Rightarrow> (error + vec) option" where
  "solve_linear_theta_v1 solve Da Da_th Ks_th i =
     (let Dai = remove_i Da i;
          Dai_th = remove_i Da_th i;
          Ks_no_diag_th = K_nodiag Ks_th i;
          rhs_th = vsub Dai Dai_th;
          epsilon = 1 / 10 ^ 6;
          I = eye (ncols Ks_no_diag_th)
      in retry_solve solve Ks_no_diag_th I rhs_th epsilon)"

section \<open>The maximum-entropy module\<close>

record lbfgs_options =
  lr :: real
  max_iter :: nat
  history_size :: nat
  tolerance_change :: real
  line_search_fn :: string

record result =
  res_fun :: real
  res_x :: vec

definition lbfgs_setup :: "nat \<Rightarrow> real option \<Rightarrow> string \<Rightarrow> lbfgs_options" where
  \<comment> \<open>the tolerance rewrite of \<open>minimize2\<close> and the options it builds the optimizer with\<close>
  "lbfgs_setup mx tol line_search =
     (let tol = (if tol = None \<or> the tol \<ge> 1 / 10 ^ 6 then 1 / 10 ^ 6 else the tol)
      in \<lparr>lr = 1 / 10, max_iter = mx, history_size = 1, tolerance_change = tol,
          line_search_fn = line_search\<rparr>)"

definition closure :: "(vec \<Rightarrow> real) \<Rightarrow> real \<Rightarrow> vec \<Rightarrow> real" where
  \<comment> \<open>the loss of the nested \<open>closure\<close>: the objective plus the L2 term\<close>
  "closure f lambda x = f x + lambda * (sqrt (sum_list (map (\<lambda>a. a ^ 2) x))) ^ 2"

text \<open>
  \<open>torch.optim.LBFGS\<close> is a library class: its \<open>step\<close> is the parameter \<open>lbfgs\<close>,
  from the options, the loss and the start to the final iterate. The optional
  \<open>callback\<close> only observes the iterates and is left out.
\<close>

definition minimize2 ::
  "(lbfgs_options \<Rightarrow> (vec \<Rightarrow> real) \<Rightarrow> vec \<Rightarrow> vec) \<Rightarrow> (vec \<Rightarrow> real) \<Rightarrow> vec \<Rightarrow> nat
     \<Rightarrow> real option \<Rightarrow> string \<Rightarrow> real \<Rightarrow> result" where
  "minimize2 lbfgs f x0 mx tol line_search lambda =
     (let x = lbfgs (lbfgs_setup mx tol line_search) (closure f lambda) x0
      in \<lparr>res_fun = f x, res_x = x\<rparr>)"

definition offdiag_indices :: "nat \<Rightarrow> (nat \<times> nat) list" where
  \<comment> \<open>the true positions of \<open>~torch.eye(N, dtype=torch.bool)\<close>, row by row\<close>
  "offdiag_indices N =
     concat (map (\<lambda>r. map (\<lambda>c. (r, c)) (filter (\<lambda>c. c \<noteq> r) [0..<N])) [0..<N])"

definition expand_theta :: "tensor \<Rightarrow> error + mat" where
  \<comment> \<open>\<open>N, _ = theta.shape\<close> needs two dimensions; the masked assignment needs as many
      values as the mask has true positions, or a single value, which is broadcast\<close>
  "expand_theta theta =
     (case theta of
        Tensor1 v \<Rightarrow> Inl ValueError
      | Tensor2 rows \<Rightarrow>
          (let N = length rows;
               mask = offdiag_indices N;
               flat = concat rows
           in if length flat = length mask then Inr (index_put (zeros N N) mask flat)
              else if length flat = 1
              then Inr (index_put (zeros N N) mask (replicate (length mask) (hd flat)))
              else Inl ShapeError))"

definition triu_indices :: "nat \<Rightarrow> (nat \<times> nat) list" where
  \<comment> \<open>\<open>torch.triu_indices(N, N, offset=1)\<close> as a list of (row, column) pairs\<close>
  "triu_indices N = concat (map (\<lambda>r. map (\<lambda>c. (r, c)) [Suc r..<N]) [0..<N])"

definition MaxEntObjective_th :: "vec \<Rightarrow> nat \<Rightarrow> mat" where
  \<comment> \<open>the local \<open>th\<close> of \<open>MaxEntObjective.forward\<close>\<close>
  "MaxEntObjective_th theta N = index_put (zeros N N) (triu_indices N) theta"

definition MaxEntObjective_forward :: "vec \<Rightarrow> mat \<Rightarrow> mat \<Rightarrow> real" where
  "MaxEntObjective_forward theta S S1 =
     (let N = length S;
          th = MaxEntObjective_th theta N;
          thS = matmul (msub th (mtranspose th)) S;
          thf_odd = colsums (mmul S1 thS);
          thf_min = Min (set thf_odd);
          sig = (mean thf_odd + thf_min
                 - ln (mean (map (\<lambda>x. exp (- x + thf_min)) thf_odd))) / real N
      in sig)"

section \<open>The least-squares routine and the linear system\<close>

text \<open>
  What the library routine promises is written as predicates on the parameter \<open>lstsq\<close>:
  a solution minimises the squared residual \<open>resid2\<close> over all vectors of the right
  length, and a minimum-norm solution has the least squared norm among those.
  \<open>lstsq_1x1\<close> is one such routine, for one equation in one unknown; it runs the model
  on two-spin inputs.
\<close>

definition matvec :: "mat \<Rightarrow> vec \<Rightarrow> vec" where
  "matvec A x = map (\<lambda>r. dot r x) A"

definition norm2 :: "vec \<Rightarrow> real" where
  "norm2 x = sum_list (map (\<lambda>a. a ^ 2) x)"

definition resid2 :: "mat \<Rightarrow> vec \<Rightarrow> vec \<Rightarrow> real" where
  "resid2 A x b = norm2 (vsub (matvec A x) b)"

definition least_squares :: "mat \<Rightarrow> vec \<Rightarrow> vec \<Rightarrow> bool" where
  "least_squares A b x =
     (length x = ncols A \<and> (\<forall>y. length y = ncols A \<longrightarrow> resid2 A x b \<le> resid2 A y b))"

definition min_norm_least_squares :: "mat \<Rightarrow> vec \<Rightarrow> vec \<Rightarrow> bool" where
  "min_norm_least_squares A b x =
     (least_squares A b x \<and> (\<forall>y. least_squares A b y \<longrightarrow> norm2 x \<le> norm2 y))"

definition lstsq_least_squares :: "solver \<Rightarrow> bool" where
  "lstsq_least_squares lstsq = (\<forall>A b x. lstsq A b = Inr x \<longrightarrow> least_squares A b x)"

definition lstsq_min_norm :: "solver \<Rightarrow> bool" where
  "lstsq_min_norm lstsq = (\<forall>A b x. lstsq A b = Inr x \<longrightarrow> min_norm_least_squares A b x)"

definition lstsq_returns :: "solver \<Rightarrow> nat \<Rightarrow> bool" where
  "lstsq_returns lstsq k =
     (\<forall>A b. mat_shape A k k \<and> length b = k \<longrightarrow> (\<exists>x. lstsq A b = Inr x \<and> length x = k))"

definition lstsq_1x1 :: solver where
  "lstsq_1x1 A b =
     (case (A, b) of
        ([[a]], [y]) \<Rightarrow> Inr [if a = 0 then 0 else y / a]
      | _ \<Rightarrow> Inl LinAlgError)"


text \<open>
  The linear system of \<open>solve_linear_theta\<close> in the words of the specification:
  position \<open>j\<close> of a vector without its entry \<open>i\<close> is position \<open>spec_skip i j\<close> of the
  vector, the right-hand side is the difference of the two correlation vectors there,
  and the matrix is the curvature matrix without row and column \<open>i\<close> plus \<open>alpha\<close> on
  the diagonal, \<open>alpha\<close> being \<open>1e-4\<close> times the trace over \<open>N - 1\<close>.
\<close>

definition spec_skip :: "nat \<Rightarrow> nat \<Rightarrow> nat" where
  "spec_skip i j = (if j < i then j else j + 1)"

definition spec_rhs :: "vec \<Rightarrow> vec \<Rightarrow> nat \<Rightarrow> vec" where
  "spec_rhs Da Da_th i =
     map (\<lambda>j. Da ! spec_skip i j - Da_th ! spec_skip i j) [0..<length Da - 1]"

definition spec_alpha :: "mat \<Rightarrow> nat \<Rightarrow> real" where
  "spec_alpha Ks i =
     1 / 10 ^ 4 * sum_list (map (\<lambda>j. Ks ! spec_skip i j ! spec_skip i j) [0..<length Ks - 1])
       / real (length Ks - 1)"

definition spec_matrix :: "mat \<Rightarrow> nat \<Rightarrow> mat" where
  "spec_matrix Ks i =
     map (\<lambda>j. map (\<lambda>k. Ks ! spec_skip i j ! spec_skip i k
                        + (if j = k then spec_alpha Ks i else 0)) [0..<length Ks - 1])
       [0..<length Ks - 1]"

section \<open>Basic facts about the tensor operations\<close>

lemma map2_nth:
  "length a = length b \<Longrightarrow> map2 f a b = map (\<lambda>k. f (a ! k) (b ! k)) [0..<length a]"
  by (rule nth_equalityI) simp_all

lemma sum_list_map2_nth:
  "length a = length b \<Longrightarrow>
     sum_list (map2 f a b) = sum_list (map (\<lambda>k. f (a ! k) (b ! k)) [0..<length a])"
  by (simp only: map2_nth)

lemma sum_vmul_dot: "length a = length b \<Longrightarrow> sum_list (vmul a b) = dot a b"
  by (simp add: vmul_def dot_def sum_list_map2_nth)

lemma mat_shape_length: "mat_shape M n m \<Longrightarrow> length M = n"
  by (simp add: mat_shape_def)

lemma mat_shape_row: "mat_shape M n m \<Longrightarrow> j < n \<Longrightarrow> length (M ! j) = m"
  by (simp add: mat_shape_def list_all_length)

lemma mat_shape_ncols: "mat_shape M n m \<Longrightarrow> 0 < n \<Longrightarrow> ncols M = m"
  by (cases M) (simp_all add: mat_shape_def ncols_def)

lemma mat_shapeI:
  "length M = n \<Longrightarrow> (\<And>j. j < n \<Longrightarrow> length (M ! j) = m) \<Longrightarrow> mat_shape M n m"
  by (simp add: mat_shape_def list_all_length)

lemma length_remove_i: "i < length A \<Longrightarrow> length (remove_i A i) = length A - 1"
  by (simp add: remove_i_def)

lemma nth_remove_i:
  "i < length A \<Longrightarrow> j < length A - 1 \<Longrightarrow>
     remove_i A i ! j = A ! (if j < i then j else Suc j)"
  by (simp add: remove_i_def nth_append min_def)

lemma mat_shape_remove_i:
  assumes "mat_shape S n m" "i < n"
  shows "mat_shape (remove_i S i) (n - 1) m"
proof (rule mat_shapeI)
  show "length (remove_i S i) = n - 1"
    using assms by (simp add: length_remove_i mat_shape_length)
next
  fix j assume "j < n - 1"
  then show "length (remove_i S i ! j) = m"
    using assms by (simp add: nth_remove_i mat_shape_length mat_shape_row)
qed

lemma dot_zeros: "dot (replicate n 0) v = 0"
proof -
  have "map (\<lambda>k. replicate n 0 ! k * v ! k) [0..<n] = replicate n (0::real)"
    by (rule nth_equalityI) simp_all
  then show ?thesis by (simp add: dot_def sum_list_replicate)
qed

lemma vecmat_zeros: "vecmat (replicate n 0) M = replicate (ncols M) 0"
  by (rule nth_equalityI) (simp_all add: vecmat_def dot_zeros)

lemma vmul_zeros_right: "length a = m \<Longrightarrow> vmul a (replicate m 0) = replicate m 0"
  by (rule nth_equalityI) (simp_all add: vmul_def)

lemma tilt_field_zeros:
  assumes "mat_shape S n m" "i < n" "2 \<le> n"
  shows "tilt_field S (replicate k 0) i = replicate m 0"
proof -
  have "mat_shape (remove_i S i) (n - 1) m" using assms(1,2) by (rule mat_shape_remove_i)
  then have "ncols (remove_i S i) = m" using assms by (simp add: mat_shape_ncols)
  moreover have "length (vscale (- 2) (S ! i)) = m"
    using assms by (simp add: vscale_def mat_shape_row)
  ultimately show ?thesis
    by (simp add: tilt_field_def vecmat_zeros vmul_zeros_right)
qed

lemma logsumexp_zeros: "logsumexp (replicate m 0) = ln (real m)"
  by (simp add: logsumexp_def sum_list_replicate)

lemma nth_remove_i_skip:
  "i < length A \<Longrightarrow> j < length A - 1 \<Longrightarrow> remove_i A i ! j = A ! spec_skip i j"
  by (simp add: nth_remove_i spec_skip_def)

lemma spec_skip_less: "i < n \<Longrightarrow> j < n - 1 \<Longrightarrow> spec_skip i j < n"
  by (auto simp add: spec_skip_def)

lemma vsub_remove_i:
  assumes "length Da = n" "length Da_th = n" "i < n"
  shows "vsub (remove_i Da i) (remove_i Da_th i) = spec_rhs Da Da_th i"
  unfolding vsub_def spec_rhs_def
  by (rule nth_equalityI) (use assms in \<open>simp_all add: length_remove_i nth_remove_i_skip\<close>)

lemma K_nodiag_shape:
  assumes "mat_shape Ks n n" "i < n"
  shows "mat_shape (K_nodiag Ks i) (n - 1) (n - 1)"
proof (rule mat_shapeI)
  have l: "length Ks = n" using assms by (simp add: mat_shape_length)
  show "length (K_nodiag Ks i) = n - 1" using l assms by (simp add: K_nodiag_def length_remove_i)
  fix j assume j: "j < n - 1"
  then have "length (Ks ! spec_skip i j) = n"
    using assms by (simp add: mat_shape_row spec_skip_less)
  then show "length (K_nodiag Ks i ! j) = n - 1"
    using l assms j by (simp add: K_nodiag_def length_remove_i nth_remove_i_skip)
qed

lemma K_nodiag_nth:
  assumes "mat_shape Ks n n" "i < n" "j < n - 1" "k < n - 1"
  shows "K_nodiag Ks i ! j ! k = Ks ! spec_skip i j ! spec_skip i k"
proof -
  have l: "length Ks = n" using assms by (simp add: mat_shape_length)
  have "length (Ks ! spec_skip i j) = n"
    using assms by (simp add: mat_shape_row spec_skip_less)
  then show ?thesis
    using l assms by (simp add: K_nodiag_def length_remove_i nth_remove_i_skip)
qed

lemma trace_K_nodiag:
  assumes "mat_shape Ks n n" "i < n" "2 \<le> n"
  shows "trace (K_nodiag Ks i)
       = sum_list (map (\<lambda>j. Ks ! spec_skip i j ! spec_skip i j) [0..<n - 1])"
proof -
  have s: "mat_shape (K_nodiag Ks i) (n - 1) (n - 1)" using assms(1,2) by (rule K_nodiag_shape)
  then have "length (K_nodiag Ks i) = n - 1" "ncols (K_nodiag Ks i) = n - 1"
    using assms(3) by (simp_all add: mat_shape_length mat_shape_ncols)
  moreover have "map (\<lambda>j. K_nodiag Ks i ! j ! j) [0..<n - 1]
      = map (\<lambda>j. Ks ! spec_skip i j ! spec_skip i j) [0..<n - 1]"
    using assms by (intro map_cong refl) (simp add: K_nodiag_nth)
  ultimately show ?thesis by (simp only: trace_def min.idem)
qed

lemma regularised_matrix:
  assumes "mat_shape Ks n n" "i < n" "2 \<le> n"
  shows "madd (K_nodiag Ks i)
           (mscale (1 / 10 ^ 4 * trace (K_nodiag Ks i) / real (length (K_nodiag Ks i)))
              (eye (ncols (K_nodiag Ks i))))
       = spec_matrix Ks i"
proof -
  have l: "length Ks = n" using assms by (simp add: mat_shape_length)
  have s: "mat_shape (K_nodiag Ks i) (n - 1) (n - 1)" using assms(1,2) by (rule K_nodiag_shape)
  then have d: "length (K_nodiag Ks i) = n - 1" "ncols (K_nodiag Ks i) = n - 1"
    using assms(3) by (simp_all add: mat_shape_length mat_shape_ncols)
  have a: "1 / 10 ^ 4 * trace (K_nodiag Ks i) / real (n - 1) = spec_alpha Ks i"
    using assms l by (simp add: trace_K_nodiag spec_alpha_def)
  show ?thesis
    unfolding d a
  proof (rule nth_equalityI)
    show "length (madd (K_nodiag Ks i) (mscale (spec_alpha Ks i) (eye (n - 1))))
        = length (spec_matrix Ks i)"
      using d l by (simp add: madd_def mscale_def eye_def spec_matrix_def)
  next
    fix j assume "j < length (madd (K_nodiag Ks i) (mscale (spec_alpha Ks i) (eye (n - 1))))"
    then have j: "j < n - 1" using d by (simp add: madd_def mscale_def eye_def)
    have r: "length (K_nodiag Ks i ! j) = n - 1" using s j by (simp add: mat_shape_row)
    show "madd (K_nodiag Ks i) (mscale (spec_alpha Ks i) (eye (n - 1))) ! j
        = spec_matrix Ks i ! j"
    proof (rule nth_equalityI)
      show "length (madd (K_nodiag Ks i) (mscale (spec_alpha Ks i) (eye (n - 1))) ! j)
          = length (spec_matrix Ks i ! j)"
        using d l j r
        by (simp add: madd_def mscale_def eye_def spec_matrix_def vadd_def vscale_def)
    next
      fix k assume "k < length (madd (K_nodiag Ks i) (mscale (spec_alpha Ks i) (eye (n - 1))) ! j)"
      then have k: "k < n - 1"
        using d j r by (simp add: madd_def mscale_def eye_def vadd_def vscale_def)
      show "madd (K_nodiag Ks i) (mscale (spec_alpha Ks i) (eye (n - 1))) ! j ! k
          = spec_matrix Ks i ! j ! k"
        using d l j k r assms
        by (simp add: madd_def mscale_def eye_def spec_matrix_def vadd_def vscale_def
            K_nodiag_nth)
    qed
  qed
qed

lemma remove_i_cong:
  assumes len: "length A = length B" and i: "i < length A"
    and agree: "\<forall>j<length A. j \<noteq> i \<longrightarrow> A ! j = B ! j"
  shows "remove_i A i = remove_i B i"
proof (rule nth_equalityI)
  show "length (remove_i A i) = length (remove_i B i)"
    using len i by (simp add: length_remove_i)
next
  fix j assume "j < length (remove_i A i)"
  then have j: "j < length A - 1" using i by (simp add: length_remove_i)
  let ?j = "if j < i then j else Suc j"
  have "?j < length A" "?j \<noteq> i" using j by auto
  then have "A ! ?j = B ! ?j" using agree by blast
  moreover have "remove_i A i ! j = A ! ?j" using i j by (rule nth_remove_i)
  moreover have "remove_i B i ! j = B ! ?j" using i j len by (simp add: nth_remove_i)
  ultimately show "remove_i A i ! j = remove_i B i ! j" by simp
qed

lemma K_nodiag_cong:
  assumes K: "mat_shape Ks n n" and K': "mat_shape Ks' n n" and i: "i < n"
    and agree: "\<forall>j<n. \<forall>k<n. j \<noteq> i \<and> k \<noteq> i \<longrightarrow> Ks ! j ! k = Ks' ! j ! k"
  shows "K_nodiag Ks i = K_nodiag Ks' i"
proof (rule nth_equalityI)
  have l: "length Ks = n" "length Ks' = n" using K K' by (simp_all add: mat_shape_length)
  show "length (K_nodiag Ks i) = length (K_nodiag Ks' i)"
    using l i by (simp add: K_nodiag_def length_remove_i)
  fix j assume "j < length (K_nodiag Ks i)"
  then have j: "j < n - 1" using l i by (simp add: K_nodiag_def length_remove_i)
  let ?j = "if j < i then j else Suc j"
  have j': "?j < n" "?j \<noteq> i" using j by auto
  have r: "length (Ks ! ?j) = n" "length (Ks' ! ?j) = n"
    using K K' j'(1) by (simp_all add: mat_shape_row)
  have "remove_i (Ks ! ?j) i = remove_i (Ks' ! ?j) i"
  proof (rule remove_i_cong)
    show "length (Ks ! ?j) = length (Ks' ! ?j)" using r by simp
    show "i < length (Ks ! ?j)" using r i by simp
    show "\<forall>k<length (Ks ! ?j). k \<noteq> i \<longrightarrow> Ks ! ?j ! k = Ks' ! ?j ! k"
      using agree j' r by simp
  qed
  moreover have "remove_i Ks i ! j = Ks ! ?j" using i j l by (simp add: nth_remove_i)
  moreover have "remove_i Ks' i ! j = Ks' ! ?j" using i j l by (simp add: nth_remove_i)
  ultimately show "K_nodiag Ks i ! j = K_nodiag Ks' i ! j"
    using i j l by (simp add: K_nodiag_def length_remove_i)
qed

lemma lstsq_1x1_Inr:
  "lstsq_1x1 A b = Inr x \<Longrightarrow> \<exists>a y. A = [[a]] \<and> b = [y] \<and> x = [if a = 0 then 0 else y / a]"
  by (auto simp add: lstsq_1x1_def split: list.splits)

lemma resid2_1x1: "resid2 [[a]] [v] [y] = (a * v - y) ^ 2"
  by (simp add: resid2_def norm2_def vsub_def matvec_def dot_def)

lemma least_squares_1x1:
  "least_squares [[a]] [y] [v] \<longleftrightarrow> (\<forall>w. (a * v - y) ^ 2 \<le> (a * w - y) ^ 2)"
proof -
  have "(\<forall>u. length u = Suc 0 \<longrightarrow> resid2 [[a]] [v] [y] \<le> resid2 [[a]] u [y])
      \<longleftrightarrow> (\<forall>w. resid2 [[a]] [v] [y] \<le> resid2 [[a]] [w] [y])"
    by (auto simp add: length_Suc_conv)
  then show ?thesis by (simp add: least_squares_def ncols_def resid2_1x1)
qed

lemma least_squares_1x1_solution:
  "least_squares [[a]] [y] [if a = 0 then 0 else y / a]"
  by (simp add: least_squares_1x1)

lemma least_squares_length: "least_squares A b x \<Longrightarrow> length x = ncols A"
  by (simp add: least_squares_def)

lemma lstsq_1x1_min_norm: "lstsq_min_norm lstsq_1x1"
  unfolding lstsq_min_norm_def
proof (intro allI impI)
  fix A b x assume "lstsq_1x1 A b = Inr x"
  then obtain a y where A: "A = [[a]]" and b: "b = [y]"
      and x: "x = [if a = 0 then 0 else y / a]"
    using lstsq_1x1_Inr by blast
  have "norm2 x \<le> norm2 u" if u: "least_squares A b u" for u
  proof -
    have "length u = Suc 0" using least_squares_length [OF u] by (simp add: A ncols_def)
    then obtain w where w: "u = [w]" by (auto simp add: length_Suc_conv)
    show ?thesis
    proof (cases "a = 0")
      case True
      then show ?thesis by (simp add: x w norm2_def)
    next
      case False
      have "(a * w - y) ^ 2 \<le> (a * (y / a) - y) ^ 2"
        using u unfolding A b w least_squares_1x1 by blast
      then have "a * w - y = 0" using False by simp
      then have "w = y / a" using False by (simp add: field_simps)
      then show ?thesis by (simp add: x w)
    qed
  qed
  then show "min_norm_least_squares A b x"
    unfolding min_norm_least_squares_def A b x
    using least_squares_1x1_solution A b x by blast
qed

lemma lstsq_1x1_least_squares: "lstsq_least_squares lstsq_1x1"
  using lstsq_1x1_min_norm
  by (simp add: lstsq_min_norm_def lstsq_least_squares_def min_norm_least_squares_def)

lemma mat_shape_1x1: "mat_shape A (Suc 0) (Suc 0) \<Longrightarrow> \<exists>a. A = [[a]]"
  by (auto simp add: mat_shape_def length_Suc_conv)

lemma lstsq_1x1_returns: "lstsq_returns lstsq_1x1 1"
  unfolding lstsq_returns_def
proof (intro allI impI)
  fix A :: mat and b :: vec
  assume "mat_shape A 1 1 \<and> length b = 1"
  then obtain a y where "A = [[a]]" "b = [y]"
    using mat_shape_1x1 [of A] by (auto simp add: length_Suc_conv)
  then show "\<exists>x. lstsq_1x1 A b = Inr x \<and> length x = 1" by (simp add: lstsq_1x1_def)
qed

lemma solve_1x1_singular:
  "solve_linear_theta lstsq_1x1 [1, 2] [3, 5] [[0, 0], [0, 0]] 0 = Inr [0]"
  by (simp add: solve_linear_theta_def remove_i_def K_nodiag_def vsub_def ncols_def eye_def
      trace_def madd_def mscale_def vadd_def vscale_def lstsq_1x1_def)

lemma solve_linear_theta_total:
  assumes n: "2 \<le> n" and i: "i < n"
    and len: "length Da = n" "length Da_th = n" and K: "mat_shape Ks_th n n"
    and lib: "lstsq_returns lstsq (n - 1)"
  shows "\<exists>dtheta. solve_linear_theta lstsq Da Da_th Ks_th i = Inr dtheta
                   \<and> length dtheta = n - 1"
proof -
  let ?K = "K_nodiag Ks_th i"
  let ?alpha = "1 / 10 ^ 4 * trace ?K / real (length ?K)"
  have l: "length Ks_th = n" using K by (simp add: mat_shape_length)
  have "madd ?K (mscale ?alpha (eye (ncols ?K))) = spec_matrix Ks_th i"
    using K i n by (rule regularised_matrix)
  moreover have "mat_shape (spec_matrix Ks_th i) (n - 1) (n - 1)"
    by (rule mat_shapeI) (simp_all add: spec_matrix_def l)
  ultimately have "mat_shape (madd ?K (mscale ?alpha (eye (ncols ?K)))) (n - 1) (n - 1)"
    by simp
  moreover have "length (vsub (remove_i Da i) (remove_i Da_th i)) = n - 1"
    using len i by (simp add: vsub_def length_remove_i)
  ultimately obtain x
    where "lstsq (madd ?K (mscale ?alpha (eye (ncols ?K))))
             (vsub (remove_i Da i) (remove_i Da_th i)) = Inr x" "length x = n - 1"
    using lib unfolding lstsq_returns_def by blast
  then show ?thesis by (simp add: solve_linear_theta_def)
qed

lemma lstsq_returnsD:
  "lstsq_returns lstsq k \<Longrightarrow> mat_shape A k k \<Longrightarrow> length b = k
     \<Longrightarrow> \<exists>x. lstsq A b = Inr x \<and> length x = k"
  by (simp add: lstsq_returns_def)

lemma lstsq_min_normD:
  "lstsq_min_norm lstsq \<Longrightarrow> lstsq A b = Inr x \<Longrightarrow> min_norm_least_squares A b x"
  by (simp add: lstsq_min_norm_def)

lemma length_correlations: "length (correlations S i) = length S"
  by (simp add: correlations_def vdiv_def einsum_r_jr_def)

lemma length_correlations_theta: "length (correlations_theta S theta i) = length S"
  by (simp add: correlations_theta_def vdiv_def einsum_r_jr_def Let_def)

lemma mtranspose_shape:
  assumes "mat_shape S n m" "0 < n"
  shows "mat_shape (mtranspose S) m n"
  using assms by (intro mat_shapeI) (simp_all add: mtranspose_def mat_shape_ncols col_def mat_shape_length)

lemma matmul_shape:
  assumes "length A = n" "mat_shape B k p" "0 < k"
  shows "mat_shape (matmul A B) n p"
  using assms by (intro mat_shapeI) (simp_all add: matmul_def vecmat_def mat_shape_ncols)

lemma mdiv_shape: "mat_shape A n p \<Longrightarrow> mat_shape (mdiv A c) n p"
  by (rule mat_shapeI) (simp_all add: mdiv_def vdiv_def mat_shape_length mat_shape_row)

lemma outer_shape: "mat_shape (outer a b) (length a) (length b)"
  by (rule mat_shapeI) (simp_all add: outer_def)

lemma msub_shape:
  assumes "mat_shape A n p" "mat_shape B n p"
  shows "mat_shape (msub A B) n p"
  using assms
  by (intro mat_shapeI) (simp_all add: msub_def vsub_def mat_shape_length mat_shape_row)

lemma correlations4_shape:
  assumes "mat_shape S n m" "0 < n" "0 < m"
  shows "mat_shape (correlations4 S i) n n"
  unfolding correlations4_def
  by (intro mdiv_shape matmul_shape [where k = m] mtranspose_shape assms)
     (simp add: mscale_def mat_shape_length [OF assms(1)])

lemma correlations4_theta_shape:
  assumes "mat_shape S n m" "0 < n" "0 < m"
  shows "mat_shape (correlations4_theta S theta i) n n"
  unfolding correlations4_theta_def Let_def
  by (intro mdiv_shape matmul_shape [where k = m] mtranspose_shape assms)
     (simp add: mat_shape_length [OF assms(1)])

lemma norm2_nonneg: "0 \<le> norm2 x"
  by (auto simp add: norm2_def intro!: sum_list_nonneg)

lemma norm2_zeros: "norm2 (replicate k 0) = 0"
  by (simp add: norm2_def sum_list_replicate)

lemma norm2_eq_0: "norm2 x = 0 \<Longrightarrow> x = replicate (length x) 0"
proof -
  assume "norm2 x = 0"
  then have "\<forall>a\<in>set (map (\<lambda>a. a ^ 2) x). a = 0"
    unfolding norm2_def by (subst (asm) sum_list_nonneg_eq_0_iff) auto
  then have "\<forall>a\<in>set x. a = 0" by simp
  then show ?thesis by (simp add: replicate_length_same)
qed

lemma matvec_zeros:
  assumes "mat_shape A n k"
  shows "matvec A (replicate k 0) = replicate n 0"
proof (rule nth_equalityI)
  show "length (matvec A (replicate k 0)) = length (replicate n (0::real))"
    using assms by (simp add: matvec_def mat_shape_length)
next
  fix j assume "j < length (matvec A (replicate k 0))"
  then have j: "j < n" using assms by (simp add: matvec_def mat_shape_length)
  then have lr: "length (A ! j) = k" using assms by (simp add: mat_shape_row)
  have "map (\<lambda>c. A ! j ! c * replicate k 0 ! c) [0..<k] = replicate k (0::real)"
    by (rule nth_equalityI) simp_all
  then have "dot (A ! j) (replicate k 0) = 0" by (simp add: dot_def lr sum_list_replicate)
  then show "matvec A (replicate k 0) ! j = replicate n 0 ! j"
    using j assms by (simp add: matvec_def mat_shape_length)
qed

lemma vsub_self: "vsub x x = replicate (length x) 0"
  by (rule nth_equalityI) (simp_all add: vsub_def)

lemma min_norm_zero_rhs:
  assumes A: "mat_shape A k k" and k: "0 < k"
    and x: "min_norm_least_squares A (replicate k 0) x"
  shows "x = replicate k 0"
proof -
  have nc: "ncols A = k" using A k by (simp add: mat_shape_ncols)
  have "resid2 A (replicate k 0) (replicate k 0) = 0"
    using vsub_self [of "replicate k 0"]
    by (simp add: resid2_def matvec_zeros [OF A] norm2_zeros)
  then have "least_squares A (replicate k 0) (replicate k 0)"
    by (simp add: least_squares_def nc resid2_def norm2_nonneg)
  then have "norm2 x \<le> norm2 (replicate k 0)"
    using x by (simp add: min_norm_least_squares_def)
  then have "norm2 x = 0" using norm2_nonneg [of x] by (simp add: norm2_zeros)
  then have "x = replicate (length x) 0" by (rule norm2_eq_0)
  moreover have "length x = k"
    using x by (simp add: min_norm_least_squares_def least_squares_def nc)
  ultimately show ?thesis by simp
qed

lemma vadd_zeros: "length x = k \<Longrightarrow> vadd x (replicate k 0) = x"
  by (rule nth_equalityI) (simp_all add: vadd_def)

lemma sample_correlations: "correlations [[1, - 1, 1], [1, 1, - 1]] 0 = [- 2, 2 / 3]"
  by (simp add: correlations_def vdiv_def einsum_r_jr_def vscale_def vmul_def ncols_def)

lemma sample_correlations4:
  "correlations4 [[1, - 1, 1], [1, 1, - 1]] 0 = [[4, - (4 / 3)], [- (4 / 3), 4]]"
  by (simp add: correlations4_def mdiv_def vdiv_def matmul_def mscale_def vscale_def
      mtranspose_def vecmat_def dot_def col_def ncols_def
      upt_rec [of _ "numeral _"] upt_rec [of _ "Suc _"])

lemma sample_tilt_field: "tilt_field [[1, - 1, 1], [1, 1, - 1]] [0] 0 = [0, 0, 0]"
  by (simp add: tilt_field_def vmul_def vscale_def vecmat_def remove_i_def ncols_def dot_def
      col_def upt_rec [of _ "numeral _"] upt_rec [of _ "Suc _"])

lemma sample_log_norm_theta: "log_norm_theta [[1, - 1, 1], [1, 1, - 1]] [0] 0 = 0"
  by (simp add: log_norm_theta_def sample_tilt_field vneg_def logsumexp_def)

lemma sample_correlations_theta:
  "correlations_theta [[1, - 1, 1], [1, 1, - 1]] [0] 0 = [2, - (2 / 3)]"
  by (simp add: correlations_theta_def sample_tilt_field vneg_def vdiv_def einsum_r_jr_def
      vscale_def vmul_def ncols_def)

lemma sample_correlations4_theta:
  "correlations4_theta [[1, - 1, 1], [1, 1, - 1]] [0] 0 = [[4, - (4 / 3)], [- (4 / 3), 4]]"
  by (simp add: correlations4_theta_def sample_tilt_field vneg_def mdiv_def vdiv_def matmul_def
      vscale_def vmul_def mtranspose_def vecmat_def dot_def col_def ncols_def
      upt_rec [of _ "numeral _"] upt_rec [of _ "Suc _"])

lemma index_put_Nil: "index_put M [] vals = M" "index_put M idx [] = M"
  by (simp_all add: index_put_def)

lemma index_put_Cons:
  "index_put M ((r, c) # idx) (v # vals) = index_put (M[r := (M ! r)[c := v]]) idx vals"
  by (simp add: index_put_def)

lemma zeros_update: "(zeros n p)[r := (zeros n p ! r)[c := 0]] = zeros n p"
proof (cases "r < n")
  case True
  have "(replicate p (0::real))[c := 0] = replicate p 0"
  proof (rule nth_equalityI)
    fix j assume "j < length ((replicate p (0::real))[c := 0])"
    then show "(replicate p (0::real))[c := 0] ! j = replicate p 0 ! j"
      by (cases "c = j") simp_all
  qed simp
  then show ?thesis using True by (simp add: zeros_def list_update_same_conv)
next
  case False
  then show ?thesis by (simp add: zeros_def list_update_beyond)
qed

lemma index_put_zeros: "index_put (zeros n p) idx (replicate k 0) = zeros n p"
proof (induction idx arbitrary: k)
  case Nil
  show ?case by (simp add: index_put_Nil)
next
  case (Cons rc idx)
  show ?case
  proof (cases k)
    case 0
    then show ?thesis by (simp add: index_put_Nil)
  next
    case (Suc k')
    obtain r c where rc: "rc = (r, c)" by (cases rc)
    show ?thesis
      unfolding Suc rc replicate_Suc index_put_Cons zeros_update by (rule Cons.IH)
  qed
qed

lemma zeros_shape: "mat_shape (zeros n p) n p"
  by (simp add: zeros_def mat_shape_def list_all_length)

lemma ncols_zeros: "0 < n \<Longrightarrow> ncols (zeros n p) = p"
  using zeros_shape by (rule mat_shape_ncols)

lemma col_zeros: "col (zeros n p) c = replicate n (replicate p 0 ! c)"
  by (simp add: col_def zeros_def)

lemma mtranspose_zeros:
  assumes "0 < n"
  shows "mtranspose (zeros n p) = zeros p n"
proof -
  have "map (\<lambda>c. replicate n (replicate p (0::real) ! c)) [0..<p] = replicate p (replicate n 0)"
    by (rule nth_equalityI) simp_all
  then show ?thesis
    unfolding mtranspose_def ncols_zeros [OF assms] col_zeros by (simp add: zeros_def)
qed

lemma msub_zeros: "msub (zeros n p) (zeros n p) = zeros n p"
  by (simp add: msub_def zeros_def vsub_def map_replicate_const)

lemma matmul_zeros: "matmul (zeros n k) B = zeros n (ncols B)"
  by (simp add: matmul_def zeros_def vecmat_zeros)

lemma mmul_zeros_right:
  assumes "mat_shape A n p"
  shows "mmul A (zeros n p) = zeros n p"
proof (rule nth_equalityI)
  show "length (mmul A (zeros n p)) = length (zeros n p)"
    using assms by (simp add: mmul_def zeros_def mat_shape_length)
next
  fix j assume "j < length (mmul A (zeros n p))"
  then have j: "j < n" using assms by (simp add: mmul_def zeros_def mat_shape_length)
  then have "length (A ! j) = p" using assms by (simp add: mat_shape_row)
  then have "vmul (A ! j) (replicate p 0) = replicate p 0" by (rule vmul_zeros_right)
  then show "mmul A (zeros n p) ! j = zeros n p ! j"
    using j assms by (simp add: mmul_def zeros_def mat_shape_length)
qed

lemma colsums_zeros:
  assumes "0 < n"
  shows "colsums (zeros n p) = replicate p 0"
proof -
  have "map (\<lambda>c. sum_list (replicate n (replicate p (0::real) ! c))) [0..<p] = replicate p 0"
    by (rule nth_equalityI) (simp_all add: sum_list_replicate)
  then show ?thesis
    unfolding colsums_def ncols_zeros [OF assms] col_zeros by simp
qed

lemma sample_forward_zero:
  "MaxEntObjective_forward [0] [[1, - 1], [1, 1]] [[- 1, 1], [- 1, - 1]] = 0"
  by (simp add: MaxEntObjective_forward_def MaxEntObjective_th_def index_put_def triu_indices_def
      zeros_def mtranspose_def msub_def vsub_def matmul_def vecmat_def dot_def col_def ncols_def
      mmul_def vmul_def colsums_def mean_def Let_def
      upt_rec [of _ "numeral _"] upt_rec [of _ "Suc _"] numeral_2_eq_2)

section \<open>The matrix built inside the objective\<close>

text \<open>
  The builder of \<open>MaxEntObjective.forward\<close> puts the compressed vector on the strictly
  upper triangle of \<open>th\<close>, in the row-major order of \<open>triu_indices\<close>, and the
  objective uses \<open>th - th.T\<close>, which is antisymmetric and has the given entries above
  the diagonal.
\<close>

lemma update_entry_shape:
  assumes "mat_shape M n p"
  shows "mat_shape (M[r := (M ! r)[c := v]]) n p"
proof (rule mat_shapeI)
  show "length (M[r := (M ! r)[c := v]]) = n" using assms by (simp add: mat_shape_length)
next
  fix j assume "j < n"
  then show "length (M[r := (M ! r)[c := v]] ! j) = p"
    using assms by (cases "j = r") (simp_all add: mat_shape_length mat_shape_row)
qed

lemma index_put_shape:
  "mat_shape M n p \<Longrightarrow> mat_shape (index_put M idx vals) n p"
proof (induction idx arbitrary: M vals)
  case Nil
  then show ?case by (simp add: index_put_Nil)
next
  case (Cons rc idx)
  obtain r c where rc: "rc = (r, c)" by (cases rc)
  show ?case
  proof (cases vals)
    case Nil
    then show ?thesis using Cons.prems by (simp add: index_put_Nil)
  next
    case (Cons v vs)
    have "mat_shape (M[r := (M ! r)[c := v]]) n p"
      using Cons.prems by (rule update_entry_shape)
    then show ?thesis unfolding Cons rc index_put_Cons by (rule Cons.IH)
  qed
qed

lemma update_entry_other:
  "(r, c) \<noteq> (r', c') \<Longrightarrow> (M[r' := (M ! r')[c' := v]]) ! r ! c = M ! r ! c"
  by (cases "r' < length M"; cases "r = r'") (auto simp add: list_update_beyond)

lemma update_entry_same:
  "r < length M \<Longrightarrow> c < length (M ! r) \<Longrightarrow> (M[r := (M ! r)[c := v]]) ! r ! c = v"
  by simp

lemma index_put_other:
  "(r, c) \<notin> set idx \<Longrightarrow> index_put M idx vals ! r ! c = M ! r ! c"
proof (induction idx arbitrary: M vals)
  case Nil
  then show ?case by (simp add: index_put_Nil)
next
  case (Cons rc idx)
  obtain r' c' where rc: "rc = (r', c')" by (cases rc)
  show ?case
  proof (cases vals)
    case Nil
    then show ?thesis by (simp add: index_put_Nil)
  next
    case (Cons v vs)
    have ne: "(r, c) \<noteq> (r', c')" and notin: "(r, c) \<notin> set idx"
      using Cons.prems rc by auto
    show ?thesis
      unfolding Cons rc index_put_Cons
      using Cons.IH [OF notin] update_entry_other [OF ne] by simp
  qed
qed

lemma index_put_nth:
  assumes "distinct idx" "length vals = length idx" "mat_shape M n p"
    and "\<forall>(r, c) \<in> set idx. r < n \<and> c < p" and "k < length idx"
  shows "index_put M idx vals ! fst (idx ! k) ! snd (idx ! k) = vals ! k"
  using assms
proof (induction idx arbitrary: M vals k)
  case Nil
  then show ?case by simp
next
  case (Cons rc idx)
  obtain r c where rc: "rc = (r, c)" by (cases rc)
  obtain v vs where vals: "vals = v # vs" using Cons.prems(2) by (cases vals) auto
  let ?M = "M[r := (M ! r)[c := v]]"
  have sh: "mat_shape ?M n p"
    using Cons.prems(3) by (rule update_entry_shape)
  have rn: "r < n" "c < p" using Cons.prems(4) rc by auto
  show ?case
  proof (cases k)
    case 0
    have "(r, c) \<notin> set idx" using Cons.prems(1) rc by simp
    then have "index_put ?M idx vs ! r ! c = ?M ! r ! c" by (rule index_put_other)
    also have "\<dots> = v"
      using rn Cons.prems(3) by (simp add: mat_shape_length mat_shape_row)
    finally show ?thesis by (simp add: 0 rc vals index_put_Cons)
  next
    case (Suc k')
    have "index_put ?M idx vs ! fst (idx ! k') ! snd (idx ! k') = vs ! k'"
      using Cons.prems Suc vals sh by (intro Cons.IH) auto
    then show ?thesis by (simp add: Suc rc vals index_put_Cons)
  qed
qed

lemma set_triu_indices: "set (triu_indices n) = {(r, c). r < c \<and> c < n}"
  by (fastforce simp add: triu_indices_def image_iff)

lemma distinct_triu_indices: "distinct (triu_indices n)"
  unfolding triu_indices_def
proof (rule distinct_concat)
  have "inj_on (\<lambda>r. map (Pair r) [Suc r..<n]) {0..<n}"
  proof (rule inj_onI)
    fix r r' assume r: "r \<in> {0..<n}" "r' \<in> {0..<n}"
      and eq: "map (Pair r) [Suc r..<n] = map (Pair r') [Suc r'..<n]"
    from eq have "length (map (Pair r) [Suc r..<n]) = length (map (Pair r') [Suc r'..<n])"
      by simp
    then show "r = r'" using r by simp
  qed
  then show "distinct (map (\<lambda>r. map (Pair r) [Suc r..<n]) [0..<n])"
    by (simp add: distinct_map)
next
  fix ys assume "ys \<in> set (map (\<lambda>r. map (Pair r) [Suc r..<n]) [0..<n])"
  then show "distinct ys" by (auto simp add: distinct_map inj_on_def)
next
  fix ys zs
  assume "ys \<in> set (map (\<lambda>r. map (Pair r) [Suc r..<n]) [0..<n])"
    "zs \<in> set (map (\<lambda>r. map (Pair r) [Suc r..<n]) [0..<n])" "ys \<noteq> zs"
  then show "set ys \<inter> set zs = {}" by auto
qed

lemma length_triu_indices: "length (triu_indices n) = n * (n - 1) div 2"
proof -
  have "length (triu_indices n) = sum_list (map (\<lambda>r. n - Suc r) [0..<n])"
    by (simp add: triu_indices_def length_concat comp_def)
  also have "\<dots> = (\<Sum>r<n. n - Suc r)"
    by (simp add: interv_sum_list_conv_sum_set_nat atLeast0LessThan)
  also have "\<dots> = (\<Sum>r<n. r)"
    by (rule sum.nat_diff_reindex)
  also have "\<dots> = n * (n - 1) div 2"
    using Sum_Ico_nat [of 0 n] by (simp add: atLeast0LessThan)
  finally show ?thesis .
qed

lemma msub_mtranspose_nth:
  assumes M: "mat_shape M n n" and r: "r < n" and c: "c < n"
  shows "msub M (mtranspose M) ! r ! c = M ! r ! c - M ! c ! r"
proof -
  have l: "length M = n" using M by (simp add: mat_shape_length)
  have nc: "ncols M = n" using M r by (intro mat_shape_ncols) auto
  have lr: "length (M ! r) = n" using M r by (simp add: mat_shape_row)
  have "mtranspose M ! r = col M r" using r by (simp add: mtranspose_def nc)
  moreover have "col M r ! c = M ! c ! r" using c l by (simp add: col_def)
  moreover have "length (col M r) = n" by (simp add: col_def l)
  ultimately show ?thesis
    using r c l lr by (simp add: msub_def vsub_def mtranspose_def nc)
qed

lemma MaxEntObjective_th_shape: "mat_shape (MaxEntObjective_th theta n) n n"
  unfolding MaxEntObjective_th_def by (intro index_put_shape zeros_shape)

lemma MaxEntObjective_th_lower:
  assumes "c \<le> r" "r < n"
  shows "MaxEntObjective_th theta n ! r ! c = 0"
proof -
  have "(r, c) \<notin> set (triu_indices n)" using assms by (simp add: set_triu_indices)
  then have "MaxEntObjective_th theta n ! r ! c = zeros n n ! r ! c"
    unfolding MaxEntObjective_th_def by (rule index_put_other)
  then show ?thesis using assms by (simp add: zeros_def)
qed

lemma MaxEntObjective_th_upper:
  assumes len: "length theta = n * (n - 1) div 2" and k: "k < length theta"
  shows "MaxEntObjective_th theta n ! fst (triu_indices n ! k) ! snd (triu_indices n ! k)
       = theta ! k"
  unfolding MaxEntObjective_th_def
proof (rule index_put_nth [where n = n and p = n])
  show "distinct (triu_indices n)" by (rule distinct_triu_indices)
  show "length theta = length (triu_indices n)" by (simp add: len length_triu_indices)
  show "mat_shape (zeros n n) n n" by (rule zeros_shape)
  show "\<forall>(r, c)\<in>set (triu_indices n). r < n \<and> c < n" by (auto simp add: set_triu_indices)
  show "k < length (triu_indices n)" using k by (simp add: len length_triu_indices)
qed

lemma MaxEntObjective_full_antisymmetric:
  assumes "r < n" "c < n"
  shows "msub (MaxEntObjective_th theta n) (mtranspose (MaxEntObjective_th theta n)) ! r ! c
       = - (msub (MaxEntObjective_th theta n) (mtranspose (MaxEntObjective_th theta n)) ! c ! r)"
  using assms by (simp add: msub_mtranspose_nth [OF MaxEntObjective_th_shape])

lemma MaxEntObjective_full_upper:
  assumes "r < c" "c < n"
  shows "msub (MaxEntObjective_th theta n) (mtranspose (MaxEntObjective_th theta n)) ! r ! c
       = MaxEntObjective_th theta n ! r ! c"
  using assms
  by (simp add: msub_mtranspose_nth [OF MaxEntObjective_th_shape] MaxEntObjective_th_lower)

section \<open>The retry loop of the original solver\<close>




lemma solve_linear_theta_one_call:
  assumes "\<And>A b. lstsq A b = Inl LinAlgError"
  shows "solve_linear_theta lstsq Da Da_th Ks_th i = Inl LinAlgError"
  using assms by (simp add: solve_linear_theta_def Let_def)

lemma solve_linear_theta_v1_first_try:
  assumes "solve (madd (K_nodiag Ks_th i) (mscale (1 / 10 ^ 6) (eye (ncols (K_nodiag Ks_th i)))))
             (vsub (remove_i Da i) (remove_i Da_th i)) = Inr dtheta"
  shows "solve_linear_theta_v1 solve Da Da_th Ks_th i = Some (Inr dtheta)"
  using assms by (simp add: solve_linear_theta_v1_def Let_def retry_solve.simps)

section \<open>The partition estimate at the zero vector\<close>

text \<open>
  In exact arithmetic \<open>log_norm_theta\<close> at the zero parameter vector is 0: the tilting
  field is zero at every sample, the log-sum-exp is \<open>ln m\<close>, and \<open>ln m\<close> is
  subtracted. The program subtracts a float32 logarithm from a log-sum-exp of the
  precision of \<open>S\<close>, so this says nothing about its result on float64 samples.
\<close>

lemma log_norm_theta_zero_exact:
  assumes "mat_shape S n m" "2 \<le> n" "1 \<le> m" "i < n"
  shows "log_norm_theta S (replicate (n - 1) 0) i = 0"
  using assms by (simp add: log_norm_theta_def tilt_field_zeros vneg_def logsumexp_zeros)

lemma lbfgs_setup_clamps_looser:
  "tol = None \<or> (\<exists>t. tol = Some t \<and> 1 / 10 ^ 6 \<le> t)
     \<Longrightarrow> tolerance_change (lbfgs_setup mx tol ls) = 1 / 10 ^ 6"
  by (auto simp add: lbfgs_setup_def)

section \<open>Claims\<close>

text \<open>
  C10. For an antisymmetric square interaction matrix \<open>J\<close>, a correlation vector \<open>Da\<close>
  of the same size and a valid index \<open>i\<close>, the original \<open>exp_EP_spin_model\<close>
  (half the sum of \<open>(J[i,:] - J[:,i]) * Da\<close>) and the revised one (\<open>J[i,:] @ Da\<close>)
  return the same number.
\<close>

theorem exp_EP_spin_model_versions_agree:
  assumes shape: "mat_shape J n n" and len: "length Da = n" and i: "i < n"
    and anti: "\<forall>j<n. \<forall>k<n. J ! j ! k = - (J ! k ! j)"
  shows "exp_EP_spin_model_v1 Da J i = exp_EP_spin_model Da J i"
proof -
  have rows: "length J = n" "\<And>j. j < n \<Longrightarrow> length (J ! j) = n"
    using shape by (simp_all add: mat_shape_def list_all_length)
  have li: "length (J ! i) = n" using rows i by simp
  have "sum_list (vmul (vsub (J ! i) (col J i)) Da)
      = sum_list (map (\<lambda>k. (J ! i ! k - J ! k ! i) * Da ! k) [0..<n])"
  proof -
    have "map2 (*) (map2 (-) (J ! i) (map (\<lambda>r. r ! i) J)) Da
        = map (\<lambda>k. (J ! i ! k - J ! k ! i) * Da ! k) [0..<n]"
      by (rule nth_equalityI) (simp_all add: li rows len)
    then show ?thesis by (simp only: vmul_def vsub_def col_def)
  qed
  also have "\<dots> = sum_list (map (\<lambda>k. 2 * (J ! i ! k * Da ! k)) [0..<n])"
  proof (rule arg_cong [where f = sum_list], rule map_cong [OF refl])
    fix k assume "k \<in> set [0..<n]"
    then have k: "k < n" by simp
    have "J ! k ! i = - (J ! i ! k)" using anti k i by blast
    then show "(J ! i ! k - J ! k ! i) * Da ! k = 2 * (J ! i ! k * Da ! k)"
      by (simp add: algebra_simps)
  qed
  also have "\<dots> = 2 * dot (J ! i) Da"
    by (simp add: dot_def li sum_list_const_mult)
  finally show ?thesis
    by (simp add: exp_EP_spin_model_v1_def exp_EP_spin_model_def)
qed

theorem exp_EP_spin_model_versions_agree_witness:
  "mat_shape [[0, 1], [- 1, 0]] 2 2 \<and> length [3, 5 :: real] = 2 \<and> (0::nat) < 2
   \<and> exp_EP_spin_model_v1 [3, 5] [[0, 1], [- 1, 0]] 0
       = exp_EP_spin_model [3, 5] [[0, 1], [- 1, 0]] 0"
proof -
  have s: "mat_shape [[0, 1], [- 1, 0]] 2 2" by (simp add: mat_shape_def)
  have a: "\<forall>j<2. \<forall>k<2. [[0, 1], [- 1, 0 :: real]] ! j ! k = - ([[0, 1], [- 1, 0]] ! k ! j)"
    by (simp add: less_Suc_eq numeral_2_eq_2)
  have c: "exp_EP_spin_model_v1 [3, 5] [[0, 1], [- 1, 0]] 0
       = exp_EP_spin_model [3, 5] [[0, 1], [- 1, 0]] 0"
    by (rule exp_EP_spin_model_versions_agree [OF s _ _ a]) simp_all
  show ?thesis by (intro conjI s c) simp_all
qed

text \<open>
  C5. \<open>minimize2\<close> does not keep the stopping tolerance at or above \<open>1e-6\<close>: its
  guard replaces a missing tolerance and every tolerance of at least \<open>1e-6\<close> by
  \<open>1e-6\<close> and lets every smaller one through. A requested \<open>1e-7\<close> reaches the
  optimizer as \<open>1e-7\<close>, below \<open>1e-6\<close>, and a requested \<open>-1\<close> as \<open>-1\<close>;
  the last conjunct reads the tolerance off the options that \<open>minimize2\<close> hands to
  the optimizer.
\<close>

theorem minimize2_tolerance_below_floor:
  "tolerance_change (lbfgs_setup 20 (Some (1 / 10 ^ 7)) ''strong_wolfe'') = 1 / 10 ^ 7
   \<and> tolerance_change (lbfgs_setup 20 (Some (1 / 10 ^ 7)) ''strong_wolfe'') < 1 / 10 ^ 6
   \<and> tolerance_change (lbfgs_setup 20 (Some (- 1)) ''strong_wolfe'') = - 1
   \<and> res_x (minimize2 (\<lambda>opts loss x. [tolerance_change opts]) (\<lambda>x. 0) [0]
              20 (Some (1 / 10 ^ 7)) ''strong_wolfe'' (1 / 100)) = [1 / 10 ^ 7]"
  by (simp add: lbfgs_setup_def minimize2_def)

text \<open>
  C2. On a correlation vector \<open>Da\<close>, a reweighted vector \<open>Da_th\<close> of the same length
  \<open>n \<ge> 2\<close>, an \<open>n\<close> by \<open>n\<close> curvature matrix and a valid index \<open>i\<close>,
  \<open>solve_linear_theta\<close> returns what the least-squares routine returns on the system
  of the specification: entry \<open>i\<close> removed from both vectors, row and column \<open>i\<close> removed
  from the matrix, \<open>alpha = 1e-4 * trace / (n - 1)\<close> added on the diagonal. The system is
  \<open>n - 1\<close> by \<open>n - 1\<close>, and with a routine that returns least-squares solutions the
  result is a least-squares solution of that system, of length \<open>n - 1\<close>.
\<close>

theorem solve_linear_theta_system:
  assumes n: "2 \<le> n" and i: "i < n"
    and len: "length Da = n" "length Da_th = n" and K: "mat_shape Ks_th n n"
  shows "solve_linear_theta lstsq Da Da_th Ks_th i
           = lstsq (spec_matrix Ks_th i) (spec_rhs Da Da_th i)
       \<and> mat_shape (spec_matrix Ks_th i) (n - 1) (n - 1)
       \<and> length (spec_rhs Da Da_th i) = n - 1
       \<and> (\<forall>dtheta. lstsq_least_squares lstsq
                    \<and> solve_linear_theta lstsq Da Da_th Ks_th i = Inr dtheta
            \<longrightarrow> least_squares (spec_matrix Ks_th i) (spec_rhs Da Da_th i) dtheta
                \<and> length dtheta = n - 1)"
proof -
  have eq: "solve_linear_theta lstsq Da Da_th Ks_th i
           = lstsq (spec_matrix Ks_th i) (spec_rhs Da Da_th i)"
    using regularised_matrix [OF K i n] vsub_remove_i [OF len i]
    by (simp add: solve_linear_theta_def)
  have l: "length Ks_th = n" using K by (simp add: mat_shape_length)
  have sh: "mat_shape (spec_matrix Ks_th i) (n - 1) (n - 1)"
    by (rule mat_shapeI) (simp_all add: spec_matrix_def l)
  have lr: "length (spec_rhs Da Da_th i) = n - 1" by (simp add: spec_rhs_def len)
  have nc: "ncols (spec_matrix Ks_th i) = n - 1" using sh n by (simp add: mat_shape_ncols)
  show ?thesis
    using eq sh lr nc by (auto simp add: lstsq_least_squares_def least_squares_def)
qed

theorem solve_linear_theta_system_witness:
  "solve_linear_theta lstsq_1x1 [1, 2] [3, 5] [[7, 1], [1, 4]] 0 = Inr [- (7500 / 10001)]
   \<and> spec_matrix [[7, 1], [1, 4]] 0 = [[10001 / 2500]]
   \<and> spec_rhs [1, 2] [3, 5] 0 = [- 3]
   \<and> least_squares [[10001 / 2500]] [- 3] [- (7500 / 10001)]"
proof -
  have s: "mat_shape [[7, 1], [1, 4]] 2 2" by (simp add: mat_shape_def)
  have m: "spec_matrix [[7, 1], [1, 4]] 0 = [[10001 / 2500]]"
    by (simp add: spec_matrix_def spec_alpha_def spec_skip_def)
  have r: "spec_rhs [1, 2] [3, 5] 0 = [- 3]"
    by (simp add: spec_rhs_def spec_skip_def)
  have v: "lstsq_1x1 [[10001 / 2500]] [- 3] = Inr [- (7500 / 10001)]"
    by (simp add: lstsq_1x1_def)
  note t = solve_linear_theta_system [of 2 0 "[1, 2]" "[3, 5]" "[[7, 1], [1, 4]]" lstsq_1x1,
      unfolded m r v, OF _ _ _ _ s]
  have t': "solve_linear_theta lstsq_1x1 [1, 2] [3, 5] [[7, 1], [1, 4]] 0 = Inr [- (7500 / 10001)]
       \<and> mat_shape [[10001 / 2500]] (2 - 1) (2 - 1)
       \<and> length [- 3 :: real] = 2 - 1
       \<and> (\<forall>dtheta. lstsq_least_squares lstsq_1x1
                    \<and> solve_linear_theta lstsq_1x1 [1, 2] [3, 5] [[7, 1], [1, 4]] 0 = Inr dtheta
            \<longrightarrow> least_squares [[10001 / 2500]] [- 3] dtheta \<and> length dtheta = 2 - 1)"
    by (rule t) simp_all
  then have "least_squares [[10001 / 2500]] [- 3] [- (7500 / 10001)]"
    using lstsq_1x1_least_squares by blast
  then show ?thesis using t' m r by blast
qed




text \<open>
  C8. Two inputs of \<open>solve_linear_theta\<close> that agree everywhere except at entry \<open>i\<close> of
  the two vectors and at row and column \<open>i\<close> of the matrix give the same result. The
  witness compares the self-entries zeroed by the original \<open>correlations\<close> and
  \<open>correlations4\<close> with the ones the revised functions keep.
\<close>

theorem solve_linear_theta_ignores_self_entries:
  assumes i: "i < n"
    and len: "length Da = n" "length Da' = n" "length Da_th = n" "length Da_th' = n"
    and K: "mat_shape Ks n n" "mat_shape Ks' n n"
    and Da: "\<forall>j<n. j \<noteq> i \<longrightarrow> Da ! j = Da' ! j"
    and Da_th: "\<forall>j<n. j \<noteq> i \<longrightarrow> Da_th ! j = Da_th' ! j"
    and Ks: "\<forall>j<n. \<forall>k<n. j \<noteq> i \<and> k \<noteq> i \<longrightarrow> Ks ! j ! k = Ks' ! j ! k"
  shows "solve_linear_theta lstsq Da Da_th Ks i = solve_linear_theta lstsq Da' Da_th' Ks' i"
proof -
  have "remove_i Da i = remove_i Da' i"
    using len i Da by (intro remove_i_cong) simp_all
  moreover have "remove_i Da_th i = remove_i Da_th' i"
    using len i Da_th by (intro remove_i_cong) simp_all
  moreover have "K_nodiag Ks i = K_nodiag Ks' i"
    using K i Ks by (rule K_nodiag_cong)
  ultimately show ?thesis by (simp add: solve_linear_theta_def)
qed

theorem solve_linear_theta_ignores_self_entries_witness:
  "correlations [[1, - 1, 1], [1, 1, - 1]] 0 = [- 2, 2 / 3]
   \<and> correlations_v1 [[1, - 1, 1], [1, 1, - 1]] 3 0 = [0, 2 / 3]
   \<and> correlations4 [[1, - 1, 1], [1, 1, - 1]] 0 = [[4, - (4 / 3)], [- (4 / 3), 4]]
   \<and> correlations4_v1 [[1, - 1, 1], [1, 1, - 1]] 3 0 = [[0, 0], [0, 4]]
   \<and> solve_linear_theta lstsq_1x1 [- 2, 2 / 3] [2, - (2 / 3)] [[4, - (4 / 3)], [- (4 / 3), 4]] 0
     = solve_linear_theta lstsq_1x1 [0, 2 / 3] [0, - (2 / 3)] [[0, 0], [0, 4]] 0"
proof -
  have 1: "correlations [[1, - 1, 1], [1, 1, - 1]] 0 = [- 2, 2 / 3]"
    by (simp add: correlations_def vdiv_def einsum_r_jr_def vscale_def vmul_def ncols_def)
  have 2: "correlations_v1 [[1, - 1, 1], [1, 1, - 1]] 3 0 = [0, 2 / 3]"
    by (simp add: correlations_v1_def vdiv_def einsum_r_jr_def vscale_def vmul_def ncols_def)
  have 3: "correlations4 [[1, - 1, 1], [1, 1, - 1]] 0 = [[4, - (4 / 3)], [- (4 / 3), 4]]"
    by (simp add: correlations4_def mdiv_def vdiv_def matmul_def mscale_def vscale_def
      mtranspose_def vecmat_def dot_def col_def ncols_def upt_rec [of _ "numeral _"] upt_rec [of _ "Suc _"])
  have 4: "correlations4_v1 [[1, - 1, 1], [1, 1, - 1]] 3 0 = [[0, 0], [0, 4]]"
    by (simp add: correlations4_v1_def mdiv_def vdiv_def matmul_def mscale_def vscale_def
      mtranspose_def vecmat_def dot_def col_def ncols_def upt_rec [of _ "numeral _"] upt_rec [of _ "Suc _"])
  have s: "mat_shape [[4, - (4 / 3)], [- (4 / 3), 4]] 2 2" "mat_shape [[0, 0], [0, 4]] 2 2"
    by (simp_all add: mat_shape_def)
  have 5: "solve_linear_theta lstsq_1x1 [- 2, 2 / 3] [2, - (2 / 3)] [[4, - (4 / 3)], [- (4 / 3), 4]] 0
     = solve_linear_theta lstsq_1x1 [0, 2 / 3] [0, - (2 / 3)] [[0, 0], [0, 4]] 0"
    by (rule solve_linear_theta_ignores_self_entries [OF _ _ _ _ _ s])
       (simp_all add: less_Suc_eq numeral_2_eq_2)
  show ?thesis using 1 2 3 4 5 by blast
qed

text \<open>
  C3. On an \<open>n\<close> by \<open>m\<close> sample matrix (\<open>n \<ge> 2\<close>, \<open>m \<ge> 1\<close>) and a valid index
  \<open>i\<close>, with a least-squares routine that returns on \<open>n - 1\<close> by \<open>n - 1\<close> systems,
  \<open>get_EP_Newton\<close> returns \<open>(sig_N1, sig_MTUR, theta, Da)\<close> where \<open>Da\<close> is the
  correlation vector, \<open>sig_MTUR\<close> is \<open>theta\<close> dotted with \<open>Da\<close> without entry \<open>i\<close>,
  \<open>sig_N1\<close> is that dot product minus \<open>log_norm_theta S theta i\<close>, and so
  \<open>sig_N1 = sig_MTUR - log_norm_theta S theta i\<close>.
\<close>

theorem get_EP_Newton_estimates:
  assumes S: "mat_shape S n m" and n: "2 \<le> n" and m: "1 \<le> m" and i: "i < n"
    and lib: "lstsq_returns lstsq (n - 1)"
  shows "\<exists>sig_N1 sig_MTUR theta Da.
           get_EP_Newton lstsq S i = Inr (sig_N1, sig_MTUR, theta, Da)
         \<and> Da = correlations S i \<and> length theta = n - 1
         \<and> sig_MTUR = dot theta (remove_i Da i)
         \<and> sig_N1 = dot theta (remove_i Da i) - log_norm_theta S theta i
         \<and> sig_N1 = sig_MTUR - log_norm_theta S theta i"
proof -
  let ?Da = "correlations S i"
  let ?Ks = "msub (correlations4 S i) (outer ?Da ?Da)"
  have l: "length S = n" using S by (simp add: mat_shape_length)
  have lDa: "length ?Da = n" by (simp add: length_correlations l)
  have "mat_shape (outer ?Da ?Da) n n" using outer_shape [of ?Da ?Da] by (simp add: lDa)
  moreover have "mat_shape (correlations4 S i) n n"
    using S n m by (intro correlations4_shape) auto
  ultimately have K: "mat_shape ?Ks n n" by (intro msub_shape)
  have "length (vneg ?Da) = n" by (simp add: vneg_def lDa)
  then obtain theta where th: "solve_linear_theta lstsq ?Da (vneg ?Da) ?Ks i = Inr theta"
    and lth: "length theta = n - 1"
    using solve_linear_theta_total [OF n i lDa _ K lib] by blast
  have "length (remove_i ?Da i) = n - 1" using i lDa by (simp add: length_remove_i)
  then have "sum_list (vmul theta (remove_i ?Da i)) = dot theta (remove_i ?Da i)"
    using lth by (simp add: sum_vmul_dot)
  then show ?thesis using th lth by (simp add: get_EP_Newton_def Let_def)
qed

theorem get_EP_Newton_estimates_witness:
  "get_EP_Newton lstsq_1x1 [[1, - 1, 1], [1, 1, - 1]] 0
     = Inr (2500 / 10001 - log_norm_theta [[1, - 1, 1], [1, 1, - 1]] [3750 / 10001] 0,
            2500 / 10001, [3750 / 10001], [- 2, 2 / 3])
   \<and> (\<exists>sig_N1 sig_MTUR theta Da.
           get_EP_Newton lstsq_1x1 [[1, - 1, 1], [1, 1, - 1]] 0
             = Inr (sig_N1, sig_MTUR, theta, Da)
         \<and> Da = correlations [[1, - 1, 1], [1, 1, - 1]] 0 \<and> length theta = 2 - 1
         \<and> sig_MTUR = dot theta (remove_i Da 0)
         \<and> sig_N1 = dot theta (remove_i Da 0)
                      - log_norm_theta [[1, - 1, 1], [1, 1, - 1]] theta 0
         \<and> sig_N1 = sig_MTUR - log_norm_theta [[1, - 1, 1], [1, 1, - 1]] theta 0)"
proof -
  have s: "mat_shape [[1, - 1, 1], [1, 1, - 1]] 2 3" by (simp add: mat_shape_def)
  have r: "lstsq_returns lstsq_1x1 (2 - 1)" using lstsq_1x1_returns by simp
  have ev: "get_EP_Newton lstsq_1x1 [[1, - 1, 1], [1, 1, - 1]] 0
     = Inr (2500 / 10001 - log_norm_theta [[1, - 1, 1], [1, 1, - 1]] [3750 / 10001] 0,
            2500 / 10001, [3750 / 10001], [- 2, 2 / 3])"
    by (simp add: get_EP_Newton_def sample_correlations sample_correlations4
        solve_linear_theta_def remove_i_def K_nodiag_def vsub_def vneg_def ncols_def eye_def
        trace_def madd_def mscale_def vadd_def vscale_def lstsq_1x1_def msub_def outer_def
        vmul_def dot_def)
  have t: "\<exists>sig_N1 sig_MTUR theta Da.
           get_EP_Newton lstsq_1x1 [[1, - 1, 1], [1, 1, - 1]] 0
             = Inr (sig_N1, sig_MTUR, theta, Da)
         \<and> Da = correlations [[1, - 1, 1], [1, 1, - 1]] 0 \<and> length theta = 2 - 1
         \<and> sig_MTUR = dot theta (remove_i Da 0)
         \<and> sig_N1 = dot theta (remove_i Da 0)
                      - log_norm_theta [[1, - 1, 1], [1, 1, - 1]] theta 0
         \<and> sig_N1 = sig_MTUR - log_norm_theta [[1, - 1, 1], [1, 1, - 1]] theta 0"
    by (rule get_EP_Newton_estimates [OF s _ _ _ r]) simp_all
  show ?thesis using ev t by blast
qed

text \<open>
  C7. If the normalised reweighted correlations under \<open>theta_lin\<close> equal \<open>Da\<close> at every
  entry other than \<open>i\<close>, the right-hand side of the linear solve is zero, and with a
  least-squares routine that returns the minimum-norm solution \<open>get_EP_Newton2\<close>
  returns the zero update together with \<open>theta_lin\<close> dotted with \<open>Da\<close> without entry
  \<open>i\<close> minus \<open>log_norm_theta S theta_lin i\<close>.
\<close>

theorem get_EP_Newton2_fixed_point:
  assumes S: "mat_shape S n m" and n: "2 \<le> n" and m: "1 \<le> m" and i: "i < n"
    and th: "length theta_lin = n - 1" and Da: "length Da = n"
    and fp: "\<forall>j<n. j \<noteq> i \<longrightarrow>
               vdiv (correlations_theta S theta_lin i) (exp (log_norm_theta S theta_lin i)) ! j
                 = Da ! j"
    and ret: "lstsq_returns lstsq (n - 1)" and mn: "lstsq_min_norm lstsq"
  shows "get_EP_Newton2 lstsq S theta_lin Da i
       = Inr (dot theta_lin (remove_i Da i) - log_norm_theta S theta_lin i,
              replicate (n - 1) 0)"
proof -
  let ?Z = "exp (log_norm_theta S theta_lin i)"
  let ?Da_th = "vdiv (correlations_theta S theta_lin i) ?Z"
  let ?Ks = "msub (mdiv (correlations4_theta S theta_lin i) ?Z) (outer ?Da_th ?Da_th)"
  let ?K = "K_nodiag ?Ks i"
  let ?A = "madd ?K (mscale (1 / 10 ^ 4 * trace ?K / real (length ?K)) (eye (ncols ?K)))"
  have l: "length S = n" using S by (simp add: mat_shape_length)
  have lDa_th: "length ?Da_th = n" by (simp add: vdiv_def length_correlations_theta l)
  have "mat_shape (outer ?Da_th ?Da_th) n n"
    using outer_shape [of ?Da_th ?Da_th] by (simp only: lDa_th)
  moreover have "mat_shape (mdiv (correlations4_theta S theta_lin i) ?Z) n n"
    using S n m by (intro mdiv_shape correlations4_theta_shape) auto
  ultimately have K: "mat_shape ?Ks n n" by (intro msub_shape)
  have "remove_i ?Da_th i = remove_i Da i"
    using Da lDa_th i fp by (intro remove_i_cong) simp_all
  then have rhs: "vsub (remove_i Da i) (remove_i ?Da_th i) = replicate (n - 1) 0"
    using vsub_self [of "remove_i Da i"] i Da by (simp add: length_remove_i)
  have A: "mat_shape ?A (n - 1) (n - 1)"
    unfolding regularised_matrix [OF K i n]
    using K by (intro mat_shapeI) (simp_all add: spec_matrix_def mat_shape_length)
  obtain x where x: "lstsq ?A (replicate (n - 1) 0) = Inr x"
    using lstsq_returnsD [OF ret A, of "replicate (n - 1) 0"] by auto
  have "min_norm_least_squares ?A (replicate (n - 1) 0) x"
    using mn x by (rule lstsq_min_normD)
  then have x0: "x = replicate (n - 1) 0"
    using A n by (intro min_norm_zero_rhs) simp_all
  have sol: "solve_linear_theta lstsq Da ?Da_th ?Ks i = Inr (replicate (n - 1) 0)"
    using x x0 rhs by (simp add: solve_linear_theta_def Let_def)
  have "length (remove_i Da i) = n - 1" using i Da by (simp add: length_remove_i)
  then have "sum_list (vmul theta_lin (remove_i Da i)) = dot theta_lin (remove_i Da i)"
    using th by (simp add: sum_vmul_dot)
  then show ?thesis
    using sol th by (simp add: get_EP_Newton2_def Let_def vadd_zeros)
qed

theorem get_EP_Newton2_fixed_point_witness:
  "vdiv (correlations_theta [[1, - 1, 1], [1, 1, - 1]] [0] 0)
        (exp (log_norm_theta [[1, - 1, 1], [1, 1, - 1]] [0] 0)) = [2, - (2 / 3)]
   \<and> get_EP_Newton2 lstsq_1x1 [[1, - 1, 1], [1, 1, - 1]] [0] [5, - (2 / 3)] 0
       = Inr (dot [0] (remove_i [5, - (2 / 3)] 0)
                - log_norm_theta [[1, - 1, 1], [1, 1, - 1]] [0] 0, replicate (2 - 1) 0)
   \<and> get_EP_Newton2 lstsq_1x1 [[1, - 1, 1], [1, 1, - 1]] [0] [5, - (2 / 3)] 0 = Inr (0, [0])"
proof -
  have s: "mat_shape [[1, - 1, 1], [1, 1, - 1]] 2 3" by (simp add: mat_shape_def)
  have r: "lstsq_returns lstsq_1x1 (2 - 1)" using lstsq_1x1_returns by simp
  have d: "vdiv (correlations_theta [[1, - 1, 1], [1, 1, - 1]] [0] 0)
        (exp (log_norm_theta [[1, - 1, 1], [1, 1, - 1]] [0] 0)) = [2, - (2 / 3)]"
    by (simp add: sample_correlations_theta sample_log_norm_theta vdiv_def)
  have fp: "\<forall>j<2. j \<noteq> 0 \<longrightarrow>
      vdiv (correlations_theta [[1, - 1, 1], [1, 1, - 1]] [0] 0)
        (exp (log_norm_theta [[1, - 1, 1], [1, 1, - 1]] [0] 0)) ! j = [5, - (2 / 3)] ! j"
    unfolding d by (simp add: less_Suc_eq numeral_2_eq_2)
  have t: "get_EP_Newton2 lstsq_1x1 [[1, - 1, 1], [1, 1, - 1]] [0] [5, - (2 / 3)] 0
       = Inr (dot [0] (remove_i [5, - (2 / 3)] 0)
                - log_norm_theta [[1, - 1, 1], [1, 1, - 1]] [0] 0, replicate (2 - 1) 0)"
    by (rule get_EP_Newton2_fixed_point [OF s _ _ _ _ _ fp r lstsq_1x1_min_norm]) simp_all
  have "dot [0] (remove_i [5, - (2 / 3)] 0) = 0" by (simp add: dot_def)
  then have "get_EP_Newton2 lstsq_1x1 [[1, - 1, 1], [1, 1, - 1]] [0] [5, - (2 / 3)] 0
      = Inr (0, [0])"
    using t by (simp add: sample_log_norm_theta)
  then show ?thesis using d t by blast
qed

text \<open>
  C4, as the code has it. On \<open>n\<close> by \<open>m\<close> matrices \<open>S\<close> and \<open>S1\<close> (\<open>n \<ge> 2\<close>,
  \<open>m \<ge> 1\<close>; in particular \<open>S\<close> with entries \<open>1\<close> and \<open>-1\<close> and \<open>S1 = -S\<close>), the
  objective at the zero parameter vector is 0: \<open>thf_odd\<close> is zero at every sample, its
  mean and minimum are 0, and the mean of the exponentials is 1. The objective averages
  over the samples, so no \<open>log(T)/N\<close> term is left.
\<close>

theorem MaxEntObjective_zero_field:
  assumes S: "mat_shape S n m" and S1: "mat_shape S1 n m" and n: "2 \<le> n" and m: "1 \<le> m"
  shows "MaxEntObjective_forward (replicate (n * (n - 1) div 2) 0) S S1 = 0"
proof -
  have l: "length S = n" using S by (simp add: mat_shape_length)
  have nc: "ncols S = m" using S n by (simp add: mat_shape_ncols)
  have n0: "0 < n" using n by simp
  have "MaxEntObjective_th (replicate (n * (n - 1) div 2) 0) n = zeros n n"
    by (simp add: MaxEntObjective_th_def index_put_zeros)
  then have "colsums (mmul S1 (matmul
      (msub (MaxEntObjective_th (replicate (n * (n - 1) div 2) 0) n)
         (mtranspose (MaxEntObjective_th (replicate (n * (n - 1) div 2) 0) n))) S))
      = replicate m 0"
    using n0 by (simp add: mtranspose_zeros msub_zeros matmul_zeros nc mmul_zeros_right [OF S1]
        colsums_zeros)
  moreover have "Min (set (replicate m (0::real))) = 0" using m by simp
  ultimately show ?thesis
    using m by (simp add: MaxEntObjective_forward_def l Let_def mean_def sum_list_replicate)
qed

theorem MaxEntObjective_zero_field_witness:
  "mat_shape [[1, - 1], [1, 1]] 2 2 \<and> mat_shape [[- 1, 1], [- 1, - 1]] 2 2
   \<and> MaxEntObjective_forward (replicate (2 * (2 - 1) div 2) 0) [[1, - 1], [1, 1]]
        [[- 1, 1], [- 1, - 1]] = 0"
proof -
  have s: "mat_shape [[1, - 1], [1, 1]] 2 2" "mat_shape [[- 1, 1], [- 1, - 1]] 2 2"
    by (simp_all add: mat_shape_def)
  have "MaxEntObjective_forward (replicate (2 * (2 - 1) div 2) 0) [[1, - 1], [1, 1]]
        [[- 1, 1], [- 1, - 1]] = 0"
    by (rule MaxEntObjective_zero_field [OF s]) simp_all
  then show ?thesis using s by blast
qed

text \<open>
  C4, as the claim states it, fails: with two spins, two samples and \<open>S1 = -S\<close> the
  objective at zero is 0, which is neither \<open>ln 2 / 2\<close> nor its negative.
\<close>

theorem MaxEntObjective_log_term_counterexample:
  "MaxEntObjective_forward [0] [[1, - 1], [1, 1]] [[- 1, 1], [- 1, - 1]] = 0
   \<and> MaxEntObjective_forward [0] [[1, - 1], [1, 1]] [[- 1, 1], [- 1, - 1]] \<noteq> ln 2 / 2
   \<and> MaxEntObjective_forward [0] [[1, - 1], [1, 1]] [[- 1, 1], [- 1, - 1]] \<noteq> - (ln 2 / 2)"
  by (simp add: sample_forward_zero)

text \<open>
  C1. \<open>expand_theta\<close> does not build an antisymmetric matrix from a compressed vector:
  it needs a two-dimensional tensor, so the one-entry compressed vector for two spins
  raises, and on the two by one tensor with entries 1 and 2 it fills both off-diagonal
  positions, giving a matrix with entry 1 at (0, 1) and 2 at (1, 0).
\<close>

theorem expand_theta_not_antisymmetric:
  "expand_theta (Tensor2 [[1], [2]]) = Inr [[0, 1], [2, 0]]
   \<and> [[0, 1], [2, 0 :: real]] ! 0 ! 1 \<noteq> - ([[0, 1], [2, 0]] ! 1 ! 0)
   \<and> expand_theta (Tensor1 [1]) = Inl ValueError"
  by (simp add: expand_theta_def offdiag_indices_def index_put_def zeros_def
      upt_rec [of _ "numeral _"] upt_rec [of _ "Suc _"] numeral_2_eq_2)

end
